theory Spec2Isabelle
  imports Main "HOL-Library.Sublist"
begin

section \<open>Python strings\<close>

text \<open>
  A Python \<open>str\<close> is a sequence of Unicode code points, and \<open>len\<close>, slicing, \<open>in\<close> and the
  \<open>re\<close> module all work on code points. The converter looks at box-drawing characters
  (U+2500 and following), so a character is modelled as its code point and a string as the
  list of its code points. \<open>U\<close> turns an ASCII literal into such a list.
\<close>

type_synonym uchar = nat
type_synonym ustring = "uchar list"

definition U :: "string \<Rightarrow> ustring" where
  "U s = map of_char s"

text \<open>
  \<open>str.isspace\<close>, \<open>str.strip\<close> and the class \<open>\s\<close> of \<open>re\<close> (on \<open>str\<close> patterns) share
  one table of the interpreter: the characters of bidirectional type WS, B or S and of
  category Zs.
\<close>

definition is_space :: "uchar \<Rightarrow> bool" where
  "is_space c \<longleftrightarrow>
     (9 \<le> c \<and> c \<le> 13) \<or> (28 \<le> c \<and> c \<le> 32) \<or> c = 133 \<or> c = 160 \<or> c = 5760 \<or>
     (8192 \<le> c \<and> c \<le> 8202) \<or> c = 8232 \<or> c = 8233 \<or> c = 8239 \<or> c = 8287 \<or> c = 12288"

text \<open>
  The class \<open>\d\<close> of \<open>re\<close> and the digits accepted by \<open>int\<close> are the characters of
  category Nd. They come in runs of ten, from the digit zero to the digit nine of a script;
  \<open>nd_zeros\<close> lists the zero of every run (Unicode 14, the table of CPython 3.11).
\<close>

definition nd_zeros :: "uchar list" where
  "nd_zeros =
     [48, 1632, 1776, 1984, 2406, 2534, 2662, 2790, 2918, 3046, 3174, 3302, 3430, 3558,
      3664, 3792, 3872, 4160, 4240, 6112, 6160, 6470, 6608, 6784, 6800, 6992, 7088, 7232,
      7248, 42528, 43216, 43264, 43472, 43504, 43600, 44016, 65296, 66720, 68912, 69734,
      69872, 69942, 70096, 70384, 70736, 70864, 71248, 71360, 71472, 71904, 72016, 72784,
      73040, 73120, 92768, 92864, 93008, 120782, 120792, 120802, 120812, 120822, 123200,
      123632, 125264, 130032]"

definition is_decimal :: "uchar \<Rightarrow> bool" where
  "is_decimal c = list_ex (\<lambda>z. z \<le> c \<and> c < z + 10) nd_zeros"

definition decimal_value :: "uchar \<Rightarrow> nat" where
  "decimal_value c =
     (case filter (\<lambda>z. z \<le> c \<and> c < z + 10) nd_zeros of z # _ \<Rightarrow> c - z | [] \<Rightarrow> 0)"

text \<open>\<open>s.lstrip()\<close>, \<open>s.rstrip()\<close> and \<open>s.strip()\<close> without an argument.\<close>

definition lstrip :: "ustring \<Rightarrow> ustring" where
  "lstrip s = dropWhile is_space s"

definition rstrip :: "ustring \<Rightarrow> ustring" where
  "rstrip s = rev (dropWhile is_space (rev s))"

definition strip :: "ustring \<Rightarrow> ustring" where
  "strip s = lstrip (rstrip s)"

text \<open>\<open>s.startswith(p)\<close>.\<close>

definition startswith :: "ustring \<Rightarrow> ustring \<Rightarrow> bool" where
  "startswith p s \<longleftrightarrow> take (length p) s = p"

text \<open>
  \<open>s.split(sep)\<close> for a separator of one character: the pieces between the separators,
  empty pieces included, so that the result has one piece more than \<open>s\<close> has separators
  and is never empty.
\<close>

fun split_on :: "uchar \<Rightarrow> ustring \<Rightarrow> ustring list" where
  "split_on sep [] = [[]]"
| "split_on sep (c # cs) =
     (if c = sep then [] # split_on sep cs
      else (case split_on sep cs of w # ws \<Rightarrow> (c # w) # ws | [] \<Rightarrow> [[c]]))"

text \<open>\<open>sep.join(pieces)\<close>.\<close>

fun join :: "ustring \<Rightarrow> ustring list \<Rightarrow> ustring" where
  "join sep [] = []"
| "join sep [x] = x"
| "join sep (x # y # ys) = x @ sep @ join sep (y # ys)"

text \<open>
  \<open>int(s)\<close> on a non-empty string of decimal digits, and \<open>str(n)\<close> as an f-string
  \<open>f"{n}"\<close> produces it. Python integers are unbounded. The interpreter's limit on the
  length of a digit string (\<open>sys.set_int_max_str_digits\<close>), a setting of the runtime and
  absent from the oldest interpreters the script accepts, is taken as switched off.
\<close>

definition py_int :: "ustring \<Rightarrow> int" where
  "py_int ds = foldl (\<lambda>acc d. 10 * acc + int (decimal_value d)) 0 ds"

fun nat_digits :: "nat \<Rightarrow> ustring" where
  "nat_digits n = (if n < 10 then [48 + n] else nat_digits (n div 10) @ [48 + n mod 10])"

declare nat_digits.simps [simp del]

definition py_str :: "int \<Rightarrow> ustring" where
  "py_str i = (if i < 0 then 45 # nat_digits (nat (- i)) else nat_digits (nat i))"

section \<open>Diagram detection\<close>

text \<open>
  \<open>is_ascii_diagram\<close> searches the block for five regular expressions and then compares
  a character density with 0.15. Each search is written as the scan it amounts to.
  The list \<open>diagram_chars\<close> of the source is never read and is left out.
\<close>

text \<open>\<open>[\+\-\|]{3,}\<close> and \<open>\<midarrow>{3,}\<close> with U+2500: three characters of a class in a row.\<close>

fun run3 :: "(uchar \<Rightarrow> bool) \<Rightarrow> ustring \<Rightarrow> bool" where
  "run3 p (a # b # c # rest) = ((p a \<and> p b \<and> p c) \<or> run3 p (b # c # rest))"
| "run3 p _ = False"

definition ascii_border_chars :: "uchar list" where
  "ascii_border_chars = U ''+-|''"

text \<open>The class of the second pattern, in the order of the source.\<close>

definition box_class :: "uchar list" where
  "box_class = [9484, 9488, 9492, 9496, 9500, 9508, 9516, 9524, 9532, 9472, 9474]"

text \<open>
  \<open>\[.*\].*\[.*\]\<close>: the dot matches every character but the newline, so a match lies
  within one line and consists of an opening bracket, a closing one, an opening one and a
  closing one in this order, with anything between them. \<open>scan_seq\<close> looks for the
  characters of its first argument, in order, taking the first occurrence of each.
\<close>

fun scan_seq :: "ustring \<Rightarrow> ustring \<Rightarrow> bool" where
  "scan_seq [] s = True"
| "scan_seq (p # ps) [] = False"
| "scan_seq (p # ps) (c # cs) = (if c = p then scan_seq ps cs else scan_seq (p # ps) cs)"

text \<open>
  \<open>\<bar>\s*\<bar>\<close> with U+2502 for the bar: a bar, any whitespace (newlines too), and a bar.
  The bar is no whitespace, so the whitespace matched is the whole run after the first bar.
\<close>

fun bar_pair :: "ustring \<Rightarrow> bool" where
  "bar_pair [] = False"
| "bar_pair (c # cs) =
     ((c = 9474 \<and> (case dropWhile is_space cs of d # _ \<Rightarrow> d = 9474 | [] \<Rightarrow> False))
      \<or> bar_pair cs)"

text \<open>The five searches, in the order of \<open>box_patterns\<close>.\<close>

definition box_patterns :: "(ustring \<Rightarrow> bool) list" where
  "box_patterns =
     [run3 (\<lambda>c. c \<in> set ascii_border_chars),
      list_ex (\<lambda>c. c \<in> set box_class),
      (\<lambda>text. list_ex (scan_seq (U ''[][]'')) (split_on 10 text)),
      run3 (\<lambda>c. c = 9472),
      bar_pair]"

text \<open>The characters counted by the density check: the string literal of the source.\<close>

definition density_chars :: "uchar list" where
  "density_chars =
     [9472, 9474, 9484, 9488, 9492, 9496, 9500, 9508, 9516, 9524, 9532,
      9552, 9553, 9556, 9559, 9562, 9565, 9568, 9571, 9574, 9577, 9580]
     @ U ''+-|*/'' @ [92] @ U ''<>^v[](){}''"

definition diagram_char_count :: "ustring \<Rightarrow> nat" where
  "diagram_char_count text = length (filter (\<lambda>c. c \<in> set density_chars) text)"

text \<open>\<open>len(text.replace(' ', '').replace('\n', ''))\<close>: only U+0020 and U+000A are removed.\<close>

definition total_chars :: "ustring \<Rightarrow> nat" where
  "total_chars text = length (filter (\<lambda>c. c \<noteq> 32 \<and> c \<noteq> 10) text)"

text \<open>
  \<open>count / total > 0.15\<close> on Python numbers. The quotient of two integers is the double
  nearest to the exact quotient (ties to even), and \<open>0.15\<close> is the double
  \<open>5404319552844595 / 2^55\<close>, whose successor is \<open>5404319552844596 / 2^55\<close>. The significand
  of \<open>0.15\<close> is odd, so the quotient rounds to a double above \<open>0.15\<close> exactly when the exact
  quotient is at least the midpoint \<open>10808639105689191 / 2^56\<close> of the two.
\<close>

definition exceeds_threshold :: "nat \<Rightarrow> nat \<Rightarrow> bool" where
  "exceeds_threshold cnt tot \<longleftrightarrow> 10808639105689191 * tot \<le> cnt * 2 ^ 56"

text \<open>The loop over \<open>box_patterns\<close>: some search finds a match.\<close>

definition matches_box_pattern :: "ustring \<Rightarrow> bool" where
  "matches_box_pattern text = list_ex (\<lambda>pattern. pattern text) box_patterns"

definition is_ascii_diagram :: "ustring \<Rightarrow> bool" where
  "is_ascii_diagram text \<longleftrightarrow>
     matches_box_pattern text \<or>
     (0 < total_chars text \<and> exceeds_threshold (diagram_char_count text) (total_chars text))"

section \<open>Tables\<close>

text \<open>
  \<open>re.match(r'^[-:]+$', cell)\<close> on a cell that \<open>strip\<close> has left without a final newline:
  the cell is not empty and holds dashes and colons only.
\<close>

definition is_separator_cell :: "ustring \<Rightarrow> bool" where
  "is_separator_cell cell \<longleftrightarrow> cell \<noteq> [] \<and> list_all (\<lambda>c. c = 45 \<or> c = 58) cell"

text \<open>\<open>[cell.strip() for cell in line.split('|')[1:-1]]\<close>, for a stripped line.\<close>

definition row_cells :: "ustring \<Rightarrow> ustring list" where
  "row_cells line = map strip (butlast (drop 1 (split_on 124 line)))"

text \<open>
  \<open>all(re.match(r'^[-:]+$', cell) for cell in cells)\<close>; \<open>all\<close> of no cell at all is true,
  as \<open>list_all\<close> is.
\<close>

definition is_separator_row :: "ustring list \<Rightarrow> bool" where
  "is_separator_row cells = list_all is_separator_cell cells"

text \<open>The loop of \<open>parse_markdown_table\<close> with its two accumulators.\<close>

fun table_loop ::
  "ustring list \<Rightarrow> ustring list \<Rightarrow> ustring list list \<Rightarrow> ustring list \<times> ustring list list" where
  "table_loop [] headers rows = (headers, rows)"
| "table_loop (l # ls) headers rows =
     (let line = strip l in
      if \<not> startswith (U ''|'') line then table_loop ls headers rows
      else let cells = row_cells line in
        if is_separator_row cells then table_loop ls headers rows
        else if headers = [] then table_loop ls cells rows
        else table_loop ls headers (rows @ [cells]))"

definition parse_markdown_table :: "ustring list \<Rightarrow> ustring list \<times> ustring list list" where
  "parse_markdown_table lines = table_loop lines [] []"

section \<open>The parser\<close>

datatype element =
    Title ustring
  | H1 ustring
  | H2 ustring
  | H3 ustring
  | Paragraph ustring
  | Bullet ustring nat
  | Numbered ustring int
  | Code ustring
  | Diagram ustring
  | Table "ustring list" "ustring list list"
  | Metadata ustring ustring

text \<open>
  \<open>re.match(r'^(\d+)\.\s+(.+)$', s)\<close> on a string without a newline (a line of
  \<open>text.split('\n')\<close>): the groups 1 and 2 of the match. The digits matched are all the
  leading ones, since a dot must follow them. \<open>\s+\<close> takes the whole run of whitespace after
  the dot; when nothing follows the run, it gives its last character back to \<open>(.+)\<close>.
\<close>

definition match_numbered :: "ustring \<Rightarrow> (ustring \<times> ustring) option" where
  "match_numbered s =
     (let ds = takeWhile is_decimal s in
      if ds = [] then None
      else case dropWhile is_decimal s of
        [] \<Rightarrow> None
      | d # r \<Rightarrow>
          if d \<noteq> 46 then None
          else let ws = takeWhile is_space r; body = dropWhile is_space r in
            if ws = [] then None
            else if body \<noteq> [] then Some (ds, body)
            else if 2 \<le> length ws then Some (ds, [last ws])
            else None)"

text \<open>\<open>re.match(r'^\d+\.\s', s)\<close>: digits, a dot and one whitespace character.\<close>

definition starts_numbered :: "ustring \<Rightarrow> bool" where
  "starts_numbered s \<longleftrightarrow>
     takeWhile is_decimal s \<noteq> [] \<and>
     (case dropWhile is_decimal s of d # w # _ \<Rightarrow> d = 46 \<and> is_space w | _ \<Rightarrow> False)"

text \<open>The test that ends a paragraph, on the stripped next line.\<close>

definition paragraph_break :: "ustring \<Rightarrow> bool" where
  "paragraph_break next_line \<longleftrightarrow>
     next_line = [] \<or> startswith (U ''#'') next_line \<or> startswith (U ''```'') next_line \<or>
     startswith (U ''|'') next_line \<or> startswith (U ''- '') next_line \<or>
     startswith (U ''* '') next_line \<or> starts_numbered next_line"

definition metadata_keys :: "ustring list" where
  "metadata_keys = [U ''Author'', U ''Status'', U ''Created'', U ''Date'', U ''Version'']"

text \<open>
  One turn of the \<open>while\<close> loop of \<open>parse_rfc_content\<close>, on a line \<open>lines[i]\<close> and the lines
  \<open>rest\<close> after it: the number of lines after \<open>lines[i]\<close> that the turn consumes as well
  (the index advances by one more than that), and the new list of elements.
\<close>

definition parse_step :: "ustring \<Rightarrow> ustring list \<Rightarrow> element list \<Rightarrow> nat \<times> element list" where
  "parse_step line rest elements =
     (let stripped = strip line in
      if stripped = [] then (0, elements)
      else if startswith (U ''# '') stripped \<and> elements = [] then
        (0, elements @ [Title (strip (drop 2 stripped))])
      else if startswith (U ''### '') stripped then
        (0, elements @ [H3 (strip (drop 4 stripped))])
      else if startswith (U ''## '') stripped then
        (0, elements @ [H2 (strip (drop 3 stripped))])
      else if startswith (U ''# '') stripped then
        (0, elements @ [H1 (strip (drop 2 stripped))])
      else if startswith (U ''```'') stripped then
        (let code_lines = takeWhile (\<lambda>l. \<not> startswith (U ''```'') (strip l)) rest;
             code_content = join [10] code_lines
         in (length code_lines + 1,
             elements @ [if is_ascii_diagram code_content then Diagram code_content
                         else Code code_content]))
      else if startswith (U ''|'') stripped then
        (let table_lines = takeWhile (\<lambda>l. startswith (U ''|'') (strip l)) (line # rest);
             (headers, rows) = parse_markdown_table table_lines
         in (length table_lines - 1,
             if headers \<noteq> [] then elements @ [Table headers rows] else elements))
      else if startswith (U ''- '') stripped \<or> startswith (U ''* '') stripped then
        (0, elements @ [Bullet (strip (drop 2 stripped))
                               ((length line - length (lstrip line)) div 2)])
      else case match_numbered stripped of
        Some (digits, body) \<Rightarrow> (0, elements @ [Numbered body (py_int digits)])
      | None \<Rightarrow>
          (let key = takeWhile (\<lambda>c. c \<noteq> 58) stripped;
               val = drop 1 (dropWhile (\<lambda>c. c \<noteq> 58) stripped)
           in if 58 \<in> set stripped \<and> length elements \<le> 2 \<and> strip key \<in> set metadata_keys
              then (0, elements @ [Metadata (strip key) (strip val)])
              else (let more = takeWhile (\<lambda>l. \<not> paragraph_break (strip l)) rest
                    in (length more,
                        elements @ [Paragraph (join (U '' '') (stripped # map strip more))]))))"

fun parse_loop :: "ustring list \<Rightarrow> element list \<Rightarrow> element list" where
  "parse_loop [] elements = elements"
| "parse_loop (line # rest) elements =
     (case parse_step line rest elements of
        (extra, elements') \<Rightarrow> parse_loop (drop extra rest) elements')"

definition parse_rfc_content :: "ustring \<Rightarrow> element list" where
  "parse_rfc_content text = parse_loop (split_on 10 text) []"

section \<open>The renderer\<close>

text \<open>
  The document of \<open>python-docx\<close> is a builder the converter only appends to; it is modelled
  as the list of the constructs appended, each with the text it carries. A run is a piece
  of a paragraph with its bold flag. Fonts, colours, indents, alignment and shading are
  left out. The library calls are taken to accept every text.
\<close>

datatype run = Run bool ustring

datatype 'img construct =
    Heading nat ustring
  | Para "run list"
  | BulletPara ustring nat
  | CodePara ustring
  | Picture 'img
  | TableGrid "ustring list" "ustring list list"

datatype error = IndexError

text \<open>
  The helpers that append one construct each. \<open>add_numbered_item\<close> writes the paragraph
  \<open>f"{number}. {text}"\<close>.
\<close>

definition add_heading :: "'img construct list \<Rightarrow> ustring \<Rightarrow> nat \<Rightarrow> 'img construct list" where
  [simp]: "add_heading document content level = document @ [Heading level content]"

definition add_paragraph :: "'img construct list \<Rightarrow> ustring \<Rightarrow> 'img construct list" where
  [simp]: "add_paragraph document content = document @ [Para [Run False content]]"

definition add_bullet_point :: "'img construct list \<Rightarrow> ustring \<Rightarrow> nat \<Rightarrow> 'img construct list" where
  [simp]: "add_bullet_point document content level = document @ [BulletPara content level]"

definition add_numbered_item :: "'img construct list \<Rightarrow> ustring \<Rightarrow> int \<Rightarrow> 'img construct list" where
  [simp]: "add_numbered_item document content number =
     document @ [Para [Run False (py_str number @ U ''. '' @ content)]]"

definition add_code_block :: "'img construct list \<Rightarrow> ustring \<Rightarrow> 'img construct list" where
  [simp]: "add_code_block document code = document @ [CodePara code]"

text \<open>
  \<open>add_table\<close> creates a grid of \<open>len(headers)\<close> columns and writes the cells of every row
  by index: \<open>row_cells[col_idx]\<close> is out of range, and raises, for a row with more cells
  than there are headers.
\<close>

definition add_table ::
  "'img construct list \<Rightarrow> ustring list \<Rightarrow> ustring list list \<Rightarrow> error + 'img construct list" where
  "add_table document headers rows =
     (if list_ex (\<lambda>row_data. length headers < length row_data) rows then Inl IndexError
      else Inr (document @ [TableGrid headers rows]))"

text \<open>
  The paragraph of a metadata flush: for every pair a bold run \<open>f"{key}: "\<close> and a run
  \<open>f"{value}\n"\<close>. Both flushes of the source build it with the same statements.
\<close>

definition meta_paragraph :: "(ustring \<times> ustring) list \<Rightarrow> 'img construct" where
  "meta_paragraph items =
     Para (concat (map (\<lambda>(key, val). [Run True (key @ U '': ''), Run False (val @ [10])]) items))"

text \<open>\<open>title or content\<close>: the override unless it is \<open>None\<close> or empty.\<close>

definition title_or :: "ustring option \<Rightarrow> ustring \<Rightarrow> ustring" where
  "title_or title content =
     (case title of None \<Rightarrow> content | Some t \<Rightarrow> if t = [] then content else t)"

record 'img render_state =
  doc :: "'img construct list"
  metadata_items :: "(ustring \<times> ustring) list"

text \<open>
  One turn of the \<open>for\<close> loop of \<open>convert_rfc_to_docx\<close>. The body of the \<open>try\<close> statement
  (\<open>ascii_diagram_to_image\<close>, then \<open>add_picture\<close>) runs plotting and imaging libraries; its
  outcome is the parameter \<open>rasterize\<close>: the image appended, or \<open>None\<close> when the body raised
  an \<open>Exception\<close> before appending anything.
\<close>

fun render_element ::
  "(ustring \<Rightarrow> 'img option) \<Rightarrow> ustring option \<Rightarrow> 'img render_state \<Rightarrow> element
     \<Rightarrow> error + 'img render_state" where
  "render_element rasterize title st (Title content) =
     Inr (st\<lparr>doc := doc st @ [Heading 0 (title_or title content)]\<rparr>)"
| "render_element rasterize title st (Metadata key val) =
     Inr (st\<lparr>metadata_items := metadata_items st @ [(key, val)]\<rparr>)"
| "render_element rasterize title st (H1 content) =
     (if metadata_items st \<noteq> [] then
        Inr (st\<lparr>doc := add_heading
                        (doc st @ [meta_paragraph (metadata_items st), Para []]) content 1,
                metadata_items := []\<rparr>)
      else Inr (st\<lparr>doc := add_heading (doc st) content 1\<rparr>))"
| "render_element rasterize title st (H2 content) =
     Inr (st\<lparr>doc := add_heading (doc st) content 2\<rparr>)"
| "render_element rasterize title st (H3 content) =
     Inr (st\<lparr>doc := add_heading (doc st) content 3\<rparr>)"
| "render_element rasterize title st (Paragraph content) =
     Inr (st\<lparr>doc := add_paragraph (doc st) content\<rparr>)"
| "render_element rasterize title st (Bullet content level) =
     Inr (st\<lparr>doc := add_bullet_point (doc st) content level\<rparr>)"
| "render_element rasterize title st (Numbered content num) =
     Inr (st\<lparr>doc := add_numbered_item (doc st) content num\<rparr>)"
| "render_element rasterize title st (Code content) =
     Inr (st\<lparr>doc := add_code_block (doc st) content\<rparr>)"
| "render_element rasterize title st (Diagram content) =
     (case rasterize content of
        Some img \<Rightarrow> Inr (st\<lparr>doc := doc st @ [Picture img]\<rparr>)
      | None \<Rightarrow> Inr (st\<lparr>doc := add_code_block (doc st) content\<rparr>))"
| "render_element rasterize title st (Table headers rows) =
     (case add_table (doc st) headers rows of
        Inl e \<Rightarrow> Inl e
      | Inr document \<Rightarrow> Inr (st\<lparr>doc := document @ [Para []]\<rparr>))"

fun render_loop ::
  "(ustring \<Rightarrow> 'img option) \<Rightarrow> ustring option \<Rightarrow> 'img render_state \<Rightarrow> element list
     \<Rightarrow> error + 'img render_state" where
  "render_loop rasterize title st [] = Inr st"
| "render_loop rasterize title st (e # es) =
     (case render_element rasterize title st e of
        Inl err \<Rightarrow> Inl err
      | Inr st' \<Rightarrow> render_loop rasterize title st' es)"

text \<open>
  The document after the flush that follows the loop: what \<open>doc.save\<close> receives. Writing
  the file is outside the model.
\<close>

definition finish :: "'img render_state \<Rightarrow> 'img construct list" where
  "finish st =
     (if metadata_items st \<noteq> [] then doc st @ [meta_paragraph (metadata_items st)]
      else doc st)"

definition render_elements ::
  "(ustring \<Rightarrow> 'img option) \<Rightarrow> ustring option \<Rightarrow> element list \<Rightarrow> error + 'img construct list" where
  "render_elements rasterize title elements =
     (case render_loop rasterize title \<lparr>doc = [], metadata_items = []\<rparr> elements of
        Inl err \<Rightarrow> Inl err
      | Inr st \<Rightarrow> Inr (finish st))"

definition convert_rfc_to_docx ::
  "(ustring \<Rightarrow> 'img option) \<Rightarrow> ustring \<Rightarrow> ustring option \<Rightarrow> error + 'img construct list" where
  "convert_rfc_to_docx rasterize markdown_text title =
     render_elements rasterize title (parse_rfc_content markdown_text)"

section \<open>Notions used in the statements\<close>

text \<open>A table element none of whose rows, headers included, is a separator row.\<close>

definition clean_table :: "element \<Rightarrow> bool" where
  "clean_table e =
     (case e of
        Table headers rows \<Rightarrow>
          \<not> is_separator_row headers \<and> list_all (\<lambda>r. \<not> is_separator_row r) rows
      | _ \<Rightarrow> True)"

text \<open>The number of \<open>|\<close> in a line.\<close>

definition pipe_count :: "ustring \<Rightarrow> nat" where
  "pipe_count line = length (filter (\<lambda>c. c = 124) line)"

text \<open>The characters of a block that are no whitespace at all (no tab either).\<close>

definition non_whitespace_count :: "ustring \<Rightarrow> nat" where
  "non_whitespace_count block = length (filter (\<lambda>c. \<not> is_space c) block)"

text \<open>
  A top-level heading line, as the spec counts them: its stripped form starts with \<open># \<close>;
  and the text the parser takes from such a line.
\<close>

definition is_top_heading_line :: "ustring \<Rightarrow> bool" where
  "is_top_heading_line l = startswith (U ''# '') (strip l)"

definition heading_text :: "ustring \<Rightarrow> ustring" where
  "heading_text l = strip (drop 2 (strip l))"


fun level1_headings :: "'img construct list \<Rightarrow> ustring list" where
  "level1_headings [] = []"
| "level1_headings (Heading level content # cs) =
     (if level = 1 then content # level1_headings cs else level1_headings cs)"
| "level1_headings (c # cs) = level1_headings cs"









section \<open>Evaluation on concrete inputs\<close>

lemmas string_eval =
  U_def strip_def lstrip_def rstrip_def startswith_def is_space_def

lemmas table_eval =
  parse_markdown_table_def row_cells_def is_separator_row_def is_separator_cell_def Let_def

lemmas parse_eval =
  parse_rfc_content_def parse_step_def match_numbered_def starts_numbered_def
  paragraph_break_def metadata_keys_def is_decimal_def decimal_value_def nd_zeros_def
  py_int_def Let_def

lemmas diagram_eval =
  is_ascii_diagram_def matches_box_pattern_def box_patterns_def ascii_border_chars_def
  box_class_def diagram_char_count_def density_chars_def total_chars_def
  exceeds_threshold_def


lemma startswith_Nil: "startswith [] s"
  by (simp add: startswith_def)

lemma startswith_Cons:
  "startswith (a # p) s \<longleftrightarrow> (case s of [] \<Rightarrow> False | c # r \<Rightarrow> c = a \<and> startswith p r)"
  by (cases s) (auto simp: startswith_def)

lemmas startswith_split = startswith_Nil startswith_Cons

text \<open>Every property that each turn of the parser's loop keeps holds of its result.\<close>

lemma parse_loop_invariant:
  assumes "Q elements"
    and "\<And>line rest els extra els'.
           Q els \<Longrightarrow> parse_step line rest els = (extra, els') \<Longrightarrow> Q els'"
  shows "Q (parse_loop lines elements)"
  using assms(1)
proof (induction lines elements rule: parse_loop.induct)
  case (1 elements)
  then show ?case by simp
next
  case (2 line rest elements)
  obtain extra elements' where step: "parse_step line rest elements = (extra, elements')"
    by (cases "parse_step line rest elements")
  have "Q elements'" using assms(2) [OF "2.prems" step] .
  then have "Q (parse_loop (drop extra rest) elements')"
    using "2.IH" [OF step [symmetric]] by simp
  then show ?case using step by simp
qed

section \<open>The parser returns, with at most one element per line\<close>




section \<open>Tables: separator rows and rows without cells\<close>

lemma table_loop_append:
  "table_loop (xs @ ys) headers rows =
     (case table_loop xs headers rows of
        (headers', rows') \<Rightarrow> table_loop ys headers' rows')"
  by (induction xs arbitrary: headers rows) (simp_all add: Let_def)

lemma table_loop_no_separator:
  "table_loop lines headers rows = (headers', rows') \<Longrightarrow>
   headers = [] \<or> \<not> is_separator_row headers \<Longrightarrow>
   list_all (\<lambda>r. \<not> is_separator_row r) rows \<Longrightarrow>
     (headers' = [] \<or> \<not> is_separator_row headers') \<and>
     list_all (\<lambda>r. \<not> is_separator_row r) rows'"
proof (induction lines arbitrary: headers rows)
  case Nil
  then show ?case by simp
next
  case (Cons l ls)
  then show ?case
    by (auto simp: Let_def split: if_splits)
qed

lemma parse_markdown_table_no_separator:
  assumes "parse_markdown_table lines = (headers, rows)"
  shows "(headers = [] \<or> \<not> is_separator_row headers) \<and>
         list_all (\<lambda>r. \<not> is_separator_row r) rows"
  using table_loop_no_separator [of lines "[]" "[]" headers rows] assms
  by (simp add: parse_markdown_table_def)

lemma parse_step_clean_table:
  assumes "list_all clean_table els" and "parse_step line rest els = (extra, els')"
  shows "list_all clean_table els'"
proof -
  have tab: "\<And>ls h r. parse_markdown_table ls = (h, r) \<Longrightarrow> h \<noteq> [] \<Longrightarrow> clean_table (Table h r)"
    using parse_markdown_table_no_separator by (fastforce simp: clean_table_def)
  show ?thesis
    using assms tab
    by (auto simp: parse_step_def Let_def clean_table_def
        split: if_splits option.splits prod.splits)
qed

lemma parse_rfc_content_clean_table: "list_all clean_table (parse_rfc_content text)"
  unfolding parse_rfc_content_def
  by (rule parse_loop_invariant [where Q = "list_all clean_table"])
    (simp, rule parse_step_clean_table)

lemma table_example:
  "parse_rfc_content (join [10] [U ''| A | B |'', U ''|---|---|'', U ''| 1 | 2 |'']) =
     [Table [U ''A'', U ''B''] [[U ''1'', U ''2'']]]"
  by (simp add: parse_rfc_content_def parse_step_def table_eval string_eval)

text \<open>
  C4. The table region \<open>| A | B |\<close>, \<open>|---|---|\<close>, \<open>| 1 | 2 |\<close> parses to one table element
  with the headers \<open>A\<close>, \<open>B\<close> and the single row \<open>1\<close>, \<open>2\<close>. In general a row whose cells all
  match \<open>^[-:]+$\<close> is neither the headers nor a row of what \<open>parse_markdown_table\<close> returns
  (headers found are not such a row; when none are found the headers are the empty list),
  and no table element of the parser has such a row as its headers or among its rows.
\<close>

theorem separator_row_never_returned:
  "parse_rfc_content (join [10] [U ''| A | B |'', U ''|---|---|'', U ''| 1 | 2 |'']) =
     [Table [U ''A'', U ''B''] [[U ''1'', U ''2'']]] \<and>
   (\<forall>lines headers rows. parse_markdown_table lines = (headers, rows) \<longrightarrow>
      (headers \<noteq> [] \<longrightarrow> \<not> is_separator_row headers) \<and>
      (\<forall>r \<in> set rows. \<not> is_separator_row r)) \<and>
   (\<forall>text headers rows. Table headers rows \<in> set (parse_rfc_content text) \<longrightarrow>
      \<not> is_separator_row headers \<and> (\<forall>r \<in> set rows. \<not> is_separator_row r))"
proof (intro conjI allI impI)
  show "parse_rfc_content (join [10] [U ''| A | B |'', U ''|---|---|'', U ''| 1 | 2 |'']) =
     [Table [U ''A'', U ''B''] [[U ''1'', U ''2'']]]"
    by (rule table_example)
next
  fix lines headers rows
  assume "parse_markdown_table lines = (headers, rows)"
  from parse_markdown_table_no_separator [OF this]
  show "headers \<noteq> [] \<Longrightarrow> \<not> is_separator_row headers"
    and "\<forall>r \<in> set rows. \<not> is_separator_row r"
    by (auto simp: list_all_iff)
next
  fix markdown_text headers rows
  assume "Table headers rows \<in> set (parse_rfc_content markdown_text)"
  with parse_rfc_content_clean_table [of markdown_text] have "clean_table (Table headers rows)"
    by (simp add: list_all_iff)
  then show "\<not> is_separator_row headers" and "\<forall>r \<in> set rows. \<not> is_separator_row r"
    by (auto simp: clean_table_def list_all_iff)
qed

theorem separator_row_never_returned_witness:
  "parse_markdown_table [U ''| A | B |'', U ''|---|---|'', U ''| 1 | 2 |''] =
     ([U ''A'', U ''B''], [[U ''1'', U ''2'']]) \<and>
   is_separator_row (row_cells (U ''|---|---|'')) \<and>
   \<not> is_separator_row [U ''A'', U ''B''] \<and>
   \<not> is_separator_row [U ''1'', U ''2'']"
proof -
  have p: "parse_markdown_table [U ''| A | B |'', U ''|---|---|'', U ''| 1 | 2 |''] =
     ([U ''A'', U ''B''], [[U ''1'', U ''2'']])"
    by (simp add: table_eval string_eval)
  have s: "is_separator_row (row_cells (U ''|---|---|''))"
    by (simp add: table_eval string_eval)
  from separator_row_never_returned p
  have "\<not> is_separator_row [U ''A'', U ''B''] \<and>
        (\<forall>r \<in> set [[U ''1'', U ''2'']]. \<not> is_separator_row r)"
    by blast
  with p s show ?thesis by simp
qed

lemma length_split_on:
  "length (split_on sep s) = Suc (length (filter (\<lambda>c. c = sep) s))"
  by (induction s) (auto split: list.splits)

lemma row_cells_empty_iff:
  "row_cells line = [] \<longleftrightarrow> pipe_count line \<le> 1"
proof -
  have "row_cells line = [] \<longleftrightarrow> length (row_cells line) = 0"
    by simp
  also have "length (row_cells line) = pipe_count line - 1"
    by (simp add: row_cells_def length_split_on pipe_count_def)
  finally show ?thesis by arith
qed

lemma parse_markdown_table_skip:
  assumes "is_separator_row (row_cells (strip l))"
  shows "parse_markdown_table (pre @ l # post) = parse_markdown_table (pre @ post)"
  using assms
  by (simp add: parse_markdown_table_def table_loop_append Let_def split: prod.splits)

text \<open>
  C9, as stated, fails on its second example. The line \<open>||\<close> splits into three empty
  pieces, so its interior cell list is the one empty cell, which does not match
  \<open>^[-:]+$\<close>: the line is not skipped and becomes the headers, or a data row.
\<close>

theorem double_pipe_row_counterexample:
  "row_cells (strip (U ''||'')) = [[]] \<and>
   \<not> is_separator_row (row_cells (strip (U ''||''))) \<and>
   parse_markdown_table [U ''||''] = ([[]], []) \<and>
   parse_markdown_table [U ''| h |'', U ''||''] = ([U ''h''], [[[]]])"
  by (simp add: table_eval string_eval)

text \<open>
  C9, amended. A captured line whose interior cell list is empty is skipped by the test
  that skips a separator row, and the table parsed is the one parsed without the line. The
  cell list of a stripped line is empty exactly when the line has at most one \<open>|\<close>: the line
  \<open>|\<close>, or a line such as \<open>| x\<close> with no closing pipe.
\<close>

theorem empty_cell_row_skipped:
  "(row_cells (strip l) = [] \<longrightarrow>
      is_separator_row (row_cells (strip l)) \<and>
      parse_markdown_table (pre @ l # post) = parse_markdown_table (pre @ post)) \<and>
   (row_cells line = [] \<longleftrightarrow> pipe_count line \<le> 1) \<and>
   row_cells (U ''|'') = [] \<and> row_cells (U ''| x'') = []"
proof (intro conjI impI)
  assume e: "row_cells (strip l) = []"
  then show s: "is_separator_row (row_cells (strip l))"
    by (simp add: is_separator_row_def)
  show "parse_markdown_table (pre @ l # post) = parse_markdown_table (pre @ post)"
    by (rule parse_markdown_table_skip [OF s])
next
  show "row_cells line = [] \<longleftrightarrow> pipe_count line \<le> 1"
    by (rule row_cells_empty_iff)
next
  show "row_cells (U ''|'') = []" and "row_cells (U ''| x'') = []"
    by (simp_all add: table_eval string_eval)
qed

theorem empty_cell_row_skipped_witness:
  "row_cells (strip (U ''|'')) = [] \<and>
   is_separator_row (row_cells (strip (U ''|''))) \<and>
   parse_markdown_table ([U ''| h |''] @ U ''|'' # [U ''| 1 |'']) =
     parse_markdown_table ([U ''| h |''] @ [U ''| 1 |'']) \<and>
   parse_markdown_table ([U ''| h |''] @ [U ''| 1 |'']) = ([U ''h''], [[U ''1'']])"
proof -
  have e: "row_cells (strip (U ''|'')) = []"
    by (simp add: table_eval string_eval)
  have v: "parse_markdown_table ([U ''| h |''] @ [U ''| 1 |'']) = ([U ''h''], [[U ''1'']])"
    by (simp add: table_eval string_eval)
  from empty_cell_row_skipped [of "U ''|''" "[U ''| h |'']" "[U ''| 1 |'']"] e
  have "is_separator_row (row_cells (strip (U ''|''))) \<and>
        parse_markdown_table ([U ''| h |''] @ U ''|'' # [U ''| 1 |'']) =
          parse_markdown_table ([U ''| h |''] @ [U ''| 1 |''])"
    by blast
  with e v show ?thesis by blast
qed

section \<open>Numbered items: the number is re-emitted in canonical decimal\<close>

lemma is_decimal_ascii: "c < 128 \<Longrightarrow> is_decimal c \<longleftrightarrow> 48 \<le> c \<and> c \<le> 57"
  by (auto simp: is_decimal_def nd_zeros_def)

lemma decimal_value_ascii: "d < 10 \<Longrightarrow> decimal_value (48 + d) = d"
  by (simp add: decimal_value_def nd_zeros_def)

lemma py_int_snoc: "py_int (ds @ [d]) = 10 * py_int ds + int (decimal_value d)"
  by (simp add: py_int_def)

lemma py_int_nat_digits: "py_int (nat_digits n) = int n"
proof (induction n rule: nat_digits.induct)
  case (1 n)
  show ?case
  proof (cases "n < 10")
    case True
    then show ?thesis
      using decimal_value_ascii [of n] by (simp add: nat_digits.simps [of n] py_int_def)
  next
    case False
    have "py_int (nat_digits n) =
            10 * py_int (nat_digits (n div 10)) + int (decimal_value (48 + n mod 10))"
      using False by (simp add: nat_digits.simps [of n] py_int_snoc)
    also have "\<dots> = 10 * int (n div 10) + int (n mod 10)"
      using "1.IH" [OF False] decimal_value_ascii [of "n mod 10"] by simp
    also have "\<dots> = int n" by (simp add: zdiv_int zmod_int)
    finally show ?thesis .
  qed
qed

lemma nat_digits_nonempty: "nat_digits n \<noteq> []"
  by (subst nat_digits.simps) simp

lemma hd_nat_digits: "hd (nat_digits n) = 48 \<Longrightarrow> n = 0"
proof (induction n rule: nat_digits.induct)
  case (1 n)
  show ?case
  proof (cases "n < 10")
    case True
    then show ?thesis using "1.prems" by (simp add: nat_digits.simps [of n])
  next
    case False
    then have "hd (nat_digits (n div 10)) = 48"
      using "1.prems" nat_digits_nonempty [of "n div 10"]
      by (simp add: nat_digits.simps [of n])
    from "1.IH" [OF False this] False show ?thesis by simp
  qed
qed

lemma py_int_nonneg: "0 \<le> py_int ds"
proof -
  have "\<And>a. 0 \<le> a \<Longrightarrow> 0 \<le> foldl (\<lambda>acc d. 10 * acc + int (decimal_value d)) a ds"
    by (induction ds) simp_all
  then show ?thesis by (simp add: py_int_def)
qed

lemma py_str_py_int: "py_str (py_int ds) = nat_digits (nat (py_int ds))"
  using py_int_nonneg [of ds] by (simp add: py_str_def)

lemma leading_zero_lost:
  assumes "hd ds = 48" and "2 \<le> length ds"
  shows "py_str (py_int ds) \<noteq> ds"
proof
  assume eq: "py_str (py_int ds) = ds"
  with assms(1) have "hd (nat_digits (nat (py_int ds))) = 48"
    by (simp add: py_str_py_int)
  then have "nat (py_int ds) = 0" by (rule hd_nat_digits)
  then have "nat_digits (nat (py_int ds)) = [48]" by (simp add: nat_digits.simps [of 0])
  with eq have "ds = [48]" by (simp add: py_str_py_int)
  with assms(2) show False by simp
qed

lemma parse_numbered_example:
  "parse_rfc_content (U ''007. step'') = [Numbered (U ''step'') 7]"
  by (simp add: parse_eval string_eval)

lemma convert_numbered_example:
  "convert_rfc_to_docx rasterize (U ''007. step'') title =
     Inr [Para [Run False (U ''7. step'')]]"
  unfolding convert_rfc_to_docx_def parse_numbered_example
  by (simp add: render_elements_def finish_def py_str_def nat_digits.simps U_def)

lemma not_decimal_markers:
  "\<not> is_decimal 35" "\<not> is_decimal 96" "\<not> is_decimal 124" "\<not> is_decimal 45"
  "\<not> is_decimal 42"
  by (simp_all add: is_decimal_ascii)

lemma parse_step_numbered:
  assumes "strip line \<noteq> []" and "is_decimal (hd (strip line))"
    and "match_numbered (strip line) = Some (digits, body)"
  shows "parse_step line rest elements = (0, elements @ [Numbered body (py_int digits)])"
proof -
  obtain c cs where s: "strip line = c # cs" using assms(1) by (cases "strip line") auto
  with assms(2) have "is_decimal c" by simp
  with not_decimal_markers have "c \<noteq> 35" "c \<noteq> 96" "c \<noteq> 124" "c \<noteq> 45" "c \<noteq> 42"
    by auto
  then show ?thesis
    using assms(3) s by (simp add: parse_step_def Let_def startswith_def U_def)
qed

text \<open>
  C10. The parser stores \<open>int\<close> of the digits of a numbered line, and the renderer writes
  the paragraph \<open>f"{number}. {text}"\<close>. The decimal written denotes the number stored and
  starts with a zero only when the number is zero, so a digit string with a leading zero
  is not written back as it was: the line \<open>007. step\<close> is rendered as the paragraph
  \<open>7. step\<close>.
\<close>

theorem numbered_item_canonical_decimal:
  "convert_rfc_to_docx rasterize (U ''007. step'') title =
     Inr [Para [Run False (U ''7. step'')]] \<and>
   parse_rfc_content (U ''007. step'') = [Numbered (U ''step'') 7] \<and>
   (strip line \<noteq> [] \<and> is_decimal (hd (strip line)) \<and>
    match_numbered (strip line) = Some (digits, body) \<longrightarrow>
      parse_step line rest elements = (0, elements @ [Numbered body (py_int digits)])) \<and>
   render_element rasterize title st (Numbered body num) =
     Inr (st\<lparr>doc := add_numbered_item (doc st) body num\<rparr>) \<and>
   add_numbered_item document body num =
     document @ [Para [Run False (py_str num @ U ''. '' @ body)]] \<and>
   py_int (py_str (py_int ds)) = py_int ds \<and>
   (hd (py_str (py_int ds)) = 48 \<longrightarrow> py_int ds = 0) \<and>
   (hd ds = 48 \<and> 2 \<le> length ds \<longrightarrow> py_str (py_int ds) \<noteq> ds)"
proof (intro conjI impI)
  show "convert_rfc_to_docx rasterize (U ''007. step'') title =
     Inr [Para [Run False (U ''7. step'')]]"
    by (rule convert_numbered_example)
  show "parse_rfc_content (U ''007. step'') = [Numbered (U ''step'') 7]"
    by (rule parse_numbered_example)
  show "render_element rasterize title st (Numbered body num) =
     Inr (st\<lparr>doc := add_numbered_item (doc st) body num\<rparr>)"
    by simp
  show "add_numbered_item document body num =
     document @ [Para [Run False (py_str num @ U ''. '' @ body)]]"
    by simp
  show "py_int (py_str (py_int ds)) = py_int ds"
    using py_int_nonneg [of ds] by (simp add: py_str_py_int py_int_nat_digits)
next
  assume "strip line \<noteq> [] \<and> is_decimal (hd (strip line)) \<and>
    match_numbered (strip line) = Some (digits, body)"
  then show "parse_step line rest elements = (0, elements @ [Numbered body (py_int digits)])"
    by (simp add: parse_step_numbered)
next
  assume "hd (py_str (py_int ds)) = 48"
  then have "hd (nat_digits (nat (py_int ds))) = 48" by (simp add: py_str_py_int)
  then have "nat (py_int ds) = 0" by (rule hd_nat_digits)
  then show "py_int ds = 0" using py_int_nonneg [of ds] by simp
next
  assume "hd ds = 48 \<and> 2 \<le> length ds"
  then show "py_str (py_int ds) \<noteq> ds" by (simp add: leading_zero_lost)
qed

theorem numbered_item_canonical_decimal_witness:
  "match_numbered (strip (U ''007. step'')) = Some (U ''007'', U ''step'') \<and>
   parse_step (U ''007. step'') [] [] = (0, [Numbered (U ''step'') (py_int (U ''007''))]) \<and>
   py_int (U ''007'') = 7 \<and> py_str (py_int (U ''007'')) = U ''7'' \<and>
   py_str (py_int (U ''007'')) \<noteq> U ''007'' \<and>
   hd (py_str (py_int (U ''0''))) = 48 \<and> py_int (U ''0'') = 0"
proof -
  have s: "strip (U ''007. step'') = U ''007. step''"
    by (simp add: string_eval)
  have m: "match_numbered (strip (U ''007. step'')) = Some (U ''007'', U ''step'')"
    by (simp add: parse_eval string_eval)
  have d: "strip (U ''007. step'') \<noteq> [] \<and> is_decimal (hd (strip (U ''007. step'')))"
    unfolding s by (simp add: is_decimal_ascii U_def)
  have v: "py_int (U ''007'') = 7" "py_int (U ''0'') = 0"
    by (simp_all add: parse_eval U_def)
  have p: "py_str 7 = U ''7''" "py_str 0 = U ''0''"
    by (simp_all add: py_str_def nat_digits.simps U_def)
  have z: "hd (U ''007'') = 48 \<and> 2 \<le> length (U ''007'')"
    by (simp add: U_def)
  note t = numbered_item_canonical_decimal
    [where line = "U ''007. step''" and digits = "U ''007''" and body = "U ''step''"
       and rest = "[]" and elements = "[]" and ds = "U ''007''"]
  note t0 = numbered_item_canonical_decimal [where ds = "U ''0''"]
  from t m d have "parse_step (U ''007. step'') [] [] =
      (0, [] @ [Numbered (U ''step'') (py_int (U ''007''))])"
    by blast
  moreover from t z have "py_str (py_int (U ''007'')) \<noteq> U ''007''"
    by blast
  moreover have "hd (py_str (py_int (U ''0''))) = 48"
    unfolding v p by (simp add: U_def)
  moreover from t0 this have "py_int (U ''0'') = 0" by blast
  ultimately show ?thesis using m v p by simp
qed

section \<open>Diagram detection: patterns first, density as the fallback\<close>

text \<open>
  On blocks of at most \<open>2^52\<close> characters the comparison of doubles agrees with the
  comparison of the exact quotient with \<open>3/20\<close>.
\<close>

lemma exceeds_threshold_iff:
  assumes "0 < t" and "t \<le> 2 ^ 52"
  shows "exceeds_threshold c t \<longleftrightarrow> 3 * t < 20 * c"
proof -
  have k: "(20::nat) * 10808639105689191 = 3 * 2 ^ 56 + 12" by simp
  have "exceeds_threshold c t \<longleftrightarrow> 20 * (10808639105689191 * t) \<le> 20 * (c * 2 ^ 56)"
    by (simp add: exceeds_threshold_def mult.commute)
  also have "20 * (10808639105689191 * t) = 3 * t * 2 ^ 56 + 12 * t"
    using k by (simp add: algebra_simps)
  also have "3 * t * 2 ^ 56 + 12 * t \<le> 20 * (c * 2 ^ 56) \<longleftrightarrow> 3 * t < 20 * c"
  proof
    assume le: "3 * t * 2 ^ 56 + 12 * t \<le> 20 * (c * 2 ^ 56)"
    show "3 * t < 20 * c"
    proof (rule ccontr)
      assume "\<not> 3 * t < 20 * c"
      then have "20 * c \<le> 3 * t" by simp
      then have "20 * c * 2 ^ 56 \<le> 3 * t * (2 ^ 56 :: nat)" by (rule mult_le_mono1)
      with le assms(1) show False by (simp add: algebra_simps)
    qed
  next
    assume "3 * t < 20 * c"
    then have "3 * t + 1 \<le> 20 * c" by simp
    then have "(3 * t + 1) * 2 ^ 56 \<le> 20 * c * (2 ^ 56 :: nat)" by (rule mult_le_mono1)
    moreover have "12 * t \<le> (2 ^ 56 :: nat)"
    proof -
      have "12 * t \<le> 12 * (2 ^ 52 :: nat)" using assms(2) by simp
      also have "\<dots> \<le> 2 ^ 56" by simp
      finally show ?thesis .
    qed
    ultimately show "3 * t * 2 ^ 56 + 12 * t \<le> 20 * (c * 2 ^ 56)"
      by (simp add: algebra_simps)
  qed
  finally show ?thesis .
qed

lemma run3_char: "run3 p s \<Longrightarrow> \<exists>c \<in> set s. p c"
  by (induction p s rule: run3.induct) auto

lemma scan_seq_char: "scan_seq (p # ps) s \<Longrightarrow> p \<in> set s"
  by (induction s) (auto split: if_splits)

lemma set_split_on: "w \<in> set (split_on sep s) \<Longrightarrow> set w \<subseteq> set s"
proof (induction s arbitrary: w)
  case Nil
  then show ?case by simp
next
  case (Cons a s)
  show ?case
  proof (cases "a = sep")
    case True
    with Cons show ?thesis by auto
  next
    case False
    show ?thesis
    proof (cases "split_on sep s")
      case Nil
      with Cons.prems False show ?thesis by simp
    next
      case (Cons v vs)
      with Cons.prems False have "w = a # v \<or> w \<in> set vs" by simp
      moreover have "set v \<subseteq> set s" using Cons.IH [of v] Cons by simp
      moreover have "w \<in> set vs \<Longrightarrow> set w \<subseteq> set s" using Cons.IH [of w] Cons by simp
      ultimately show ?thesis by auto
    qed
  qed
qed

lemma bar_pair_char: "bar_pair s \<Longrightarrow> 9474 \<in> set s"
  by (induction s) auto

lemma matches_box_pattern_char:
  assumes "matches_box_pattern block"
  shows "\<exists>c \<in> set block. c \<in> set density_chars"
proof -
  from assms consider
      "run3 (\<lambda>c. c \<in> set ascii_border_chars) block"
    | "list_ex (\<lambda>c. c \<in> set box_class) block"
    | "list_ex (scan_seq (U ''[][]'')) (split_on 10 block)"
    | "run3 (\<lambda>c. c = 9472) block"
    | "bar_pair block"
    by (auto simp: matches_box_pattern_def box_patterns_def)
  then show ?thesis
  proof cases
    case 1
    from run3_char [OF this] show ?thesis
      by (auto simp: ascii_border_chars_def density_chars_def U_def)
  next
    case 2
    then show ?thesis
      by (auto simp: list_ex_iff box_class_def density_chars_def)
  next
    case 3
    then obtain w where "w \<in> set (split_on 10 block)" and "scan_seq (U ''[][]'') w"
      by (auto simp: list_ex_iff)
    then have "91 \<in> set block"
      using scan_seq_char [of 91 "U ''][]''" w] set_split_on [of w 10 block]
      by (auto simp: U_def)
    then show ?thesis by (auto simp: density_chars_def U_def)
  next
    case 4
    from run3_char [OF this] show ?thesis by (auto simp: density_chars_def)
  next
    case 5
    from bar_pair_char [OF this] show ?thesis by (auto simp: density_chars_def)
  qed
qed

lemma no_diagram_chars:
  assumes "\<forall>c \<in> set block. c \<notin> set density_chars"
  shows "\<not> is_ascii_diagram block"
proof -
  have "\<not> matches_box_pattern block" using matches_box_pattern_char assms by blast
  moreover have "diagram_char_count block = 0"
    using assms by (simp add: diagram_char_count_def filter_empty_conv)
  ultimately show ?thesis
    by (auto simp: is_ascii_diagram_def exceeds_threshold_def)
qed

lemma space_not_density: "is_space c \<Longrightarrow> c \<notin> set density_chars"
  by (auto simp: is_space_def density_chars_def U_def)

lemma whitespace_only: "list_all is_space block \<Longrightarrow> \<not> is_ascii_diagram block"
  by (rule no_diagram_chars) (auto simp: list_all_iff space_not_density)

lemma total_chars_le: "total_chars block \<le> length block"
  by (simp add: total_chars_def)

lemma non_whitespace_le_total: "non_whitespace_count block \<le> total_chars block"
proof -
  have "\<And>c. \<not> is_space c \<Longrightarrow> c \<noteq> 32 \<and> c \<noteq> 10" by (auto simp: is_space_def)
  then have "filter (\<lambda>c. \<not> is_space c) block =
      filter (\<lambda>c. \<not> is_space c) (filter (\<lambda>c. c \<noteq> 32 \<and> c \<noteq> 10) block)"
    by (auto intro: filter_cong)
  then show ?thesis
    unfolding non_whitespace_count_def total_chars_def
    by (metis length_filter_le)
qed

lemma fallback_iff:
  assumes "\<not> matches_box_pattern block" and "length block \<le> 2 ^ 52"
  shows "is_ascii_diagram block \<longleftrightarrow>
           0 < total_chars block \<and> 3 * total_chars block < 20 * diagram_char_count block"
proof (cases "0 < total_chars block")
  case True
  have "total_chars block \<le> 2 ^ 52" using total_chars_le [of block] assms(2) by simp
  from exceeds_threshold_iff [OF True this] assms(1) True show ?thesis
    by (simp add: is_ascii_diagram_def)
next
  case False
  with assms(1) show ?thesis by (simp add: is_ascii_diagram_def)
qed





text \<open>
  C6, as stated, fails on a block with tabs. The source removes the spaces and the
  newlines from the block before it counts, and nothing else: a tab counts as a
  character. In \<open>>\<close> followed by six tabs no pattern matches, the one character that is
  no whitespace is a diagram character (a ratio of 1), and the block is no diagram, since
  the source divides 1 by 7.
\<close>

theorem tab_density_counterexample:
  "\<not> matches_box_pattern [62, 9, 9, 9, 9, 9, 9] \<and>
   diagram_char_count [62, 9, 9, 9, 9, 9, 9] = 1 \<and>
   non_whitespace_count [62, 9, 9, 9, 9, 9, 9] = 1 \<and>
   total_chars [62, 9, 9, 9, 9, 9, 9] = 7 \<and>
   \<not> is_ascii_diagram [62, 9, 9, 9, 9, 9, 9]"
  by (simp add: diagram_eval non_whitespace_count_def U_def is_space_def)

text \<open>
  C6, amended. When no pattern matches, a block (of at most \<open>2^52\<close> characters) is a
  diagram exactly when it has a character other than space and newline and the ratio of
  its diagram characters to its characters other than space and newline exceeds 0.15;
  whitespace other than these two counts in the denominator, which is therefore at least
  the number of characters that are no whitespace. A block of whitespace only is never a
  diagram.
\<close>

theorem density_fallback:
  "(\<not> matches_box_pattern block \<and> length block \<le> 2 ^ 52 \<longrightarrow>
      (is_ascii_diagram block \<longleftrightarrow>
         0 < total_chars block \<and>
         3 * total_chars block < 20 * diagram_char_count block)) \<and>
   non_whitespace_count block \<le> total_chars block \<and>
   (list_all is_space block \<longrightarrow> \<not> is_ascii_diagram block)"
  using fallback_iff [of block] non_whitespace_le_total [of block] whitespace_only [of block]
  by blast

theorem density_fallback_witness:
  "\<not> matches_box_pattern (U ''a*b'') \<and> total_chars (U ''a*b'') = 3 \<and>
   diagram_char_count (U ''a*b'') = 1 \<and> is_ascii_diagram (U ''a*b'') \<and>
   list_all is_space [9, 32, 10] \<and> \<not> is_ascii_diagram [9, 32, 10]"
proof -
  have m: "\<not> matches_box_pattern (U ''a*b'') \<and> length (U ''a*b'') \<le> 2 ^ 52"
    by (simp add: diagram_eval U_def)
  have c: "total_chars (U ''a*b'') = 3" "diagram_char_count (U ''a*b'') = 1"
    by (simp_all add: diagram_eval U_def)
  have w: "list_all is_space [9, 32, 10]"
    by (simp add: is_space_def)
  from density_fallback [of "U ''a*b''"] m c have "is_ascii_diagram (U ''a*b'')"
    by simp
  moreover from density_fallback [of "[9, 32, 10]"] w have "\<not> is_ascii_diagram [9, 32, 10]"
    by blast
  ultimately show ?thesis using m c w by blast
qed

section \<open>Title and level-1 headings in the parser\<close>

lemma parse_step_blank: "strip line = [] \<Longrightarrow> parse_step line rest elements = (0, elements)"
  by (simp add: parse_step_def)

lemma parse_step_top_heading:
  assumes "is_top_heading_line line"
  shows "parse_step line rest elements =
           (0, elements @ [if elements = [] then Title (heading_text line)
                           else H1 (heading_text line)])"
  using assms
  by (auto simp: parse_step_def Let_def U_def startswith_split is_top_heading_line_def
      heading_text_def split: list.splits)

lemma parse_loop_blanks:
  "list_all (\<lambda>l. strip l = []) blanks \<Longrightarrow>
     parse_loop (blanks @ lines) elements = parse_loop lines elements"
  by (induction blanks) (simp_all add: parse_step_blank)

text \<open>
  C8, as stated, fails after a table region that yields no element. The line \<open>|---|\<close> is
  not blank, and the separator row it holds gives no headers, so the list of elements is
  still empty at the line \<open># T\<close> after it: that second non-blank line becomes the title.
\<close>

theorem title_after_empty_table_counterexample:
  "strip (U ''|---|'') \<noteq> [] \<and>
   parse_rfc_content (join [10] [U ''|---|'', U ''# T'']) = [Title (U ''T'')]"
  by (simp add: parse_rfc_content_def parse_step_def table_eval string_eval)

text \<open>
  C8, amended. A line the loop classifies whose stripped form starts with \<open># \<close> is emitted
  as a title exactly when no element has been produced yet, and as a level-1 heading
  otherwise; in both cases the text is the stripped content after the marker. The first
  non-blank line of the input meets the condition, and so does a later line before which
  only blank lines and table regions without a header row occur.
\<close>

theorem title_iff_no_element_yet:
  "(is_top_heading_line line \<longrightarrow>
      parse_step line rest elements =
        (0, elements @ [if elements = [] then Title (heading_text line)
                        else H1 (heading_text line)])) \<and>
   (list_all (\<lambda>l. strip l = []) blanks \<and> is_top_heading_line line \<longrightarrow>
      parse_loop (blanks @ line # rest) [] = parse_loop rest [Title (heading_text line)])"
proof (intro conjI impI)
  assume "is_top_heading_line line"
  then show "parse_step line rest elements =
        (0, elements @ [if elements = [] then Title (heading_text line)
                        else H1 (heading_text line)])"
    by (rule parse_step_top_heading)
next
  assume a: "list_all (\<lambda>l. strip l = []) blanks \<and> is_top_heading_line line"
  then have "parse_loop (blanks @ line # rest) [] = parse_loop (line # rest) []"
    by (simp add: parse_loop_blanks)
  also have "\<dots> = parse_loop rest [Title (heading_text line)]"
    using a by (simp add: parse_step_top_heading)
  finally show "parse_loop (blanks @ line # rest) [] =
      parse_loop rest [Title (heading_text line)]" .
qed

theorem title_iff_no_element_yet_witness:
  "is_top_heading_line (U ''# T'') \<and> heading_text (U ''# T'') = U ''T'' \<and>
   parse_step (U ''# T'') [] [] = (0, [Title (U ''T'')]) \<and>
   parse_step (U ''# T'') [] [Paragraph (U ''p'')] = (0, [Paragraph (U ''p''), H1 (U ''T'')]) \<and>
   list_all (\<lambda>l. strip l = []) [[], U ''  ''] \<and>
   parse_loop ([[], U ''  ''] @ U ''# T'' # []) [] = [Title (U ''T'')]"
proof -
  have h: "is_top_heading_line (U ''# T'')" "heading_text (U ''# T'') = U ''T''"
    by (simp_all add: is_top_heading_line_def heading_text_def string_eval)
  have b: "list_all (\<lambda>l. strip l = []) [[], U ''  '']"
    by (simp add: string_eval)
  note t1 = title_iff_no_element_yet
    [where line = "U ''# T''" and rest = "[]" and elements = "[]" and blanks = "[[], U ''  '']"]
  note t2 = title_iff_no_element_yet
    [where line = "U ''# T''" and rest = "[]" and elements = "[Paragraph (U ''p'')]"]
  from t1 h(1) have "parse_step (U ''# T'') [] [] =
      (0, [] @ [if [] = ([]::element list) then Title (heading_text (U ''# T''))
                else H1 (heading_text (U ''# T''))])"
    by blast
  then have p1: "parse_step (U ''# T'') [] [] = (0, [Title (U ''T'')])"
    using h(2) by simp
  from t2 h(1) have "parse_step (U ''# T'') [] [Paragraph (U ''p'')] =
      (0, [Paragraph (U ''p'')] @
          [if [Paragraph (U ''p'')] = [] then Title (heading_text (U ''# T''))
           else H1 (heading_text (U ''# T''))])"
    by blast
  then have p2: "parse_step (U ''# T'') [] [Paragraph (U ''p'')] =
      (0, [Paragraph (U ''p''), H1 (U ''T'')])"
    using h(2) by simp
  from t1 h(1) b have "parse_loop ([[], U ''  ''] @ U ''# T'' # []) [] =
      parse_loop [] [Title (heading_text (U ''# T''))]"
    by blast
  then have p3: "parse_loop ([[], U ''  ''] @ U ''# T'' # []) [] = [Title (U ''T'')]"
    using h(2) by simp
  from h b p1 p2 p3 show ?thesis by blast
qed

section \<open>The renderer: general facts\<close>










section \<open>Level-1 headings of the document\<close>






lemma level1_headings_meta [simp]: "level1_headings [meta_paragraph items] = []"
  by (simp add: meta_paragraph_def)








section \<open>A diagram that cannot be rasterized\<close>





lemma render_diagram_fallback:
  assumes "r content = None"
  shows "render_element r t st (Diagram content) = render_element r t st (Code content)"
  using assms by simp





section \<open>The metadata buffer is flushed once\<close>











end
